theory Spec2Isabelle
  imports Main "HOL-Library.Sublist"
begin

section \<open>Platform values\<close>

text \<open>
  The scanner is TypeScript running on the Fetch and URL classes of its platform and on
  the cheerio HTML parser. None of them is code of the repository, so each is a parameter
  of the functions below: what the platform answers is an argument, what the repository
  does with the answer is the definition.

  A thrown value is a value of \<open>js_exn\<close>: \<open>JsError name message\<close> is an instance of
  \<open>Error\<close>, \<open>JsThrown\<close> any other thrown value. A computation that may throw has a
  result of type \<open>js_exn + 'a\<close>, \<open>Inl\<close> the exception.
\<close>

datatype js_exn = JsError string string | JsThrown

text \<open>\<open>try { body } catch (e) { handler }\<close>: the handler itself may throw.\<close>

definition try_catch :: "js_exn + 'a \<Rightarrow> (js_exn \<Rightarrow> js_exn + 'a) \<Rightarrow> js_exn + 'a" where
  "try_catch body handler = (case body of Inl e \<Rightarrow> handler e | Inr v \<Rightarrow> Inr v)"

text \<open>
  The two members of a parsed \<open>URL\<close> object that the source reads, and the constructor
  \<open>new URL(input, base?)\<close>, which throws a \<open>TypeError\<close> on input it cannot parse.
\<close>

record URL =
  origin :: string
  href :: string

type_synonym url_ctor = "string \<Rightarrow> string option \<Rightarrow> js_exn + URL"

text \<open>\<open>s.startsWith(p)\<close>.\<close>

definition startsWith :: "string \<Rightarrow> string \<Rightarrow> bool" where
  "startsWith s p = prefix p s"

text \<open>
  The test \<open>if (x)\<close> on a value of type \<open>string | undefined\<close>: \<open>undefined\<close> and the
  empty string are falsy. \<open>given x\<close> is the string when the test passes.
\<close>

definition given :: "string option \<Rightarrow> string option" where
  "given x = (case x of None \<Rightarrow> None | Some s \<Rightarrow> if s = [] then None else Some s)"

text \<open>\<open>a || b\<close> on strings: \<open>b\<close> when \<open>a\<close> is empty.\<close>

definition or_else :: "string \<Rightarrow> string \<Rightarrow> string" where
  "or_else a b = (if a = [] then b else a)"

section \<open>The data model (route.ts, lines 4 to 20)\<close>

record LinkResult =
  originalUrl :: string
  finalUrl :: string
  status :: nat
  statusText :: string
  isWorking :: bool
  isRedirect :: bool
  responseTime :: int

record ScanResult =
  totalLinks :: nat
  workingLinks :: nat
  brokenLinks :: nat
  redirects :: nat
  links :: "LinkResult list"

section \<open>URL helpers (route.ts, lines 22 to 55)\<close>

definition isValidUrl :: "url_ctor \<Rightarrow> string \<Rightarrow> js_exn + bool" where
  "isValidUrl U string =
     try_catch (case U string None of Inl e \<Rightarrow> Inl e | Inr _ \<Rightarrow> Inr True)
               (\<lambda>_. Inr False)"

text \<open>The body of the \<open>try\<close> block of \<open>normalizeUrl\<close>.\<close>

definition normalizeUrl_try :: "url_ctor \<Rightarrow> string \<Rightarrow> string option \<Rightarrow> js_exn + string" where
  "normalizeUrl_try U url baseUrl =
     (if startsWith url ''http://'' \<or> startsWith url ''https://'' then Inr url
      else if startsWith url ''//'' then Inr (''https:'' @ url)
      else if startsWith url ''/'' then
        (case given baseUrl of
           Some b \<Rightarrow> (case U b None of Inl e \<Rightarrow> Inl e | Inr base \<Rightarrow> Inr (origin base @ url))
         | None \<Rightarrow> Inr url)
      else
        (case given baseUrl of
           Some b \<Rightarrow> (case U url (Some b) of Inl e \<Rightarrow> Inl e | Inr u \<Rightarrow> Inr (href u))
         | None \<Rightarrow> Inr (''https://'' @ url)))"

definition normalizeUrl :: "url_ctor \<Rightarrow> string \<Rightarrow> string option \<Rightarrow> js_exn + string" where
  "normalizeUrl U url baseUrl = try_catch (normalizeUrl_try U url baseUrl) (\<lambda>_. Inr url)"

section \<open>The link prober (route.ts, lines 57 to 122)\<close>

text \<open>
  What \<open>fetch\<close> hands back: the members of the \<open>Response\<close> the source reads, and the
  result of \<open>response.text()\<close>, which may throw.
\<close>

record Response =
  resp_url :: string
  resp_status :: nat
  resp_statusText :: string
  resp_ok :: bool
  resp_text :: "js_exn + string"

text \<open>
  One run of the \<open>HEAD\<close> request of \<open>checkLink\<close>: \<open>Date.now()\<close> before the request,
  what \<open>await fetch(...)\<close> gives (the ten-second abort is one of the ways it throws), and
  \<open>Date.now()\<close> after it.
\<close>

record probe_run =
  t_start :: int
  fetched :: "js_exn + Response"
  t_end :: int

definition statusTexts :: "(nat \<times> string) list" where
  "statusTexts =
     [(200, ''OK''), (201, ''Created''), (301, ''Moved Permanently''), (302, ''Found''),
      (304, ''Not Modified''), (400, ''Bad Request''), (401, ''Unauthorized''),
      (403, ''Forbidden''), (404, ''Not Found''), (500, ''Internal Server Error''),
      (502, ''Bad Gateway''), (503, ''Service Unavailable'')]"

definition getStatusText :: "nat \<Rightarrow> string" where
  "getStatusText code =
     (case map_of statusTexts code of None \<Rightarrow> ''Unknown'' | Some t \<Rightarrow> or_else t ''Unknown'')"

text \<open>The body of the \<open>try\<close> block of \<open>checkLink\<close>.\<close>

definition checkLink_try :: "probe_run \<Rightarrow> string \<Rightarrow> js_exn + LinkResult" where
  "checkLink_try run url =
     (case fetched run of
        Inl e \<Rightarrow> Inl e
      | Inr response \<Rightarrow>
          Inr \<lparr>originalUrl = url,
               finalUrl = or_else (resp_url response) url,
               status = resp_status response,
               statusText = or_else (resp_statusText response)
                                    (getStatusText (resp_status response)),
               isWorking = (200 \<le> resp_status response \<and> resp_status response < 400),
               isRedirect = (resp_url response \<noteq> url),
               responseTime = t_end run - t_start run\<rparr>)"

definition checkLink :: "probe_run \<Rightarrow> string \<Rightarrow> js_exn + LinkResult" where
  "checkLink run url =
     try_catch (checkLink_try run url)
       (\<lambda>error. Inr \<lparr>originalUrl = url,
                       finalUrl = url,
                       status = 0,
                       statusText = (case error of JsError _ message \<Rightarrow> message
                                                 | JsThrown \<Rightarrow> ''Network Error''),
                       isWorking = False,
                       isRedirect = False,
                       responseTime = t_end run - t_start run\<rparr>)"

section \<open>The link extractor (route.ts, lines 124 to 143)\<close>

text \<open>
  The callback of \<open>$('a[href]').each\<close>. Its argument is what \<open>$(element).attr('href')\<close>
  gives for one selected element, \<open>found\<close> is the array \<open>links\<close> so far (the name
  \<open>links\<close> is the field of \<open>ScanResult\<close> here), and the result is the array afterwards.
\<close>

definition href_callback ::
  "url_ctor \<Rightarrow> string \<Rightarrow> string list \<Rightarrow> string option \<Rightarrow> js_exn + string list" where
  "href_callback U baseUrl found attr =
     (case given attr of
        None \<Rightarrow> Inr found
      | Some h \<Rightarrow>
          (case normalizeUrl U h (Some baseUrl) of
             Inl e \<Rightarrow> Inl e
           | Inr normalizedUrl \<Rightarrow>
               (case isValidUrl U normalizedUrl of
                  Inl e \<Rightarrow> Inl e
                | Inr valid \<Rightarrow>
                    if valid \<and> \<not> startsWith normalizedUrl ''mailto:''
                             \<and> \<not> startsWith normalizedUrl ''tel:''
                    then (if normalizedUrl \<notin> set found
                          then Inr (found @ [normalizedUrl]) else Inr found)
                    else Inr found)))"

text \<open>\<open>.each(callback)\<close>: the callback on every element in order; a throw ends it.\<close>

fun each :: "('s \<Rightarrow> 'a \<Rightarrow> js_exn + 's) \<Rightarrow> 'a list \<Rightarrow> 's \<Rightarrow> js_exn + 's" where
  "each f [] s = Inr s"
| "each f (x # xs) s = (case f s x of Inl e \<Rightarrow> Inl e | Inr s' \<Rightarrow> each f xs s')"

text \<open>
  \<open>anchors html\<close> stands for cheerio: the \<open>href\<close> attribute of every element that
  \<open>load(html)('a[href]')\<close> selects, in document order.
\<close>

definition extractLinks ::
  "url_ctor \<Rightarrow> (string \<Rightarrow> string option list) \<Rightarrow> string \<Rightarrow> string \<Rightarrow> js_exn + string list" where
  "extractLinks U anchors html baseUrl = each (href_callback U baseUrl) (anchors html) []"

section \<open>The request handler (route.ts, lines 145 to 238)\<close>

record platform =
  new_URL :: url_ctor
  anchor_hrefs :: "string \<Rightarrow> string option list"
  fetch_get :: "string \<Rightarrow> js_exn + Response"
  fetch_head :: "nat \<Rightarrow> string \<Rightarrow> probe_run"

text \<open>
  \<open>fetch_head w k link\<close> is the run of the request that probes \<open>link\<close>, the link at
  position \<open>k\<close> of the extracted links.

  The \<open>url\<close> member of the parsed request body: a string or anything else.
\<close>

datatype js_value = JsString string | JsNotString

datatype reply = ErrorJson nat string | ScanJson ScanResult

fun string_of_nat :: "nat \<Rightarrow> string" where
  "string_of_nat n =
     (if n < 10 then [char_of (48 + n)]
      else string_of_nat (n div 10) @ [char_of (48 + n mod 10)])"

definition maxConcurrent :: nat where
  "maxConcurrent = 10"

text \<open>\<open>xs.slice(a, b)\<close> for \<open>0 \<le> a \<le> b\<close>.\<close>

definition slice :: "'a list \<Rightarrow> nat \<Rightarrow> nat \<Rightarrow> 'a list" where
  "slice xs a b = take (b - a) (drop a xs)"

text \<open>
  \<open>Promise.all\<close>: the values in the order of the promises, whichever settles first, or
  a rejection when one of them rejects.
\<close>

fun promise_all :: "(js_exn + 'a) list \<Rightarrow> js_exn + 'a list" where
  "promise_all [] = Inr []"
| "promise_all (p # ps) =
     (case p of
        Inl e \<Rightarrow> Inl e
      | Inr v \<Rightarrow> (case promise_all ps of Inl e \<Rightarrow> Inl e | Inr vs \<Rightarrow> Inr (v # vs)))"

text \<open>
  The \<open>for\<close> loop of lines 200 to 206. \<open>enumerate i batch\<close> pairs each link of the
  batch with its position in \<open>extractedLinks\<close>, the position \<open>head\<close> is asked about.
  \<open>batches\<close> is not a variable of the source: it records the slice each round takes, so
  that the rounds can be spoken about.
\<close>

function probe_loop ::
  "(nat \<Rightarrow> string \<Rightarrow> probe_run) \<Rightarrow> string list \<Rightarrow> nat \<Rightarrow> LinkResult list \<Rightarrow> string list list
     \<Rightarrow> js_exn + LinkResult list \<times> string list list" where
  "probe_loop head extractedLinks i linkResults batches =
     (if i < length extractedLinks then
        (case promise_all
                (map (\<lambda>(k, link). checkLink (head k link) link)
                     (enumerate i (slice extractedLinks i (i + maxConcurrent)))) of
           Inl e \<Rightarrow> Inl e
         | Inr batchResults \<Rightarrow>
             probe_loop head extractedLinks (i + maxConcurrent) (linkResults @ batchResults)
                        (batches @ [slice extractedLinks i (i + maxConcurrent)]))
      else Inr (linkResults, batches))"
  by pat_completeness auto
termination
  by (relation "measure (\<lambda>(head, extractedLinks, i, linkResults, batches).
                           length extractedLinks - i)")
     (auto simp: maxConcurrent_def)

declare probe_loop.simps [simp del]

text \<open>The body of the \<open>try\<close> block of \<open>POST\<close>; \<open>body\<close> is \<open>await request.json()\<close>
  destructured to its \<open>url\<close> member.\<close>

definition POST_try :: "platform \<Rightarrow> js_exn + js_value \<Rightarrow> js_exn + reply" where
  "POST_try w body =
     (case body of
        Inl e \<Rightarrow> Inl e
      | Inr JsNotString \<Rightarrow> Inr (ErrorJson 400 ''URL is required'')
      | Inr (JsString url) \<Rightarrow>
          if url = [] then Inr (ErrorJson 400 ''URL is required'')
          else
            (case isValidUrl (new_URL w) url of
               Inl e \<Rightarrow> Inl e
             | Inr valid \<Rightarrow>
                 if \<not> valid then Inr (ErrorJson 400 ''Invalid URL format'')
                 else
                   (case fetch_get w url of
                      Inl e \<Rightarrow> Inl e
                    | Inr response \<Rightarrow>
                        if \<not> resp_ok response then
                          Inr (ErrorJson 400
                                 (''Failed to fetch URL: '' @ string_of_nat (resp_status response)
                                    @ '' '' @ resp_statusText response))
                        else
                          (case resp_text response of
                             Inl e \<Rightarrow> Inl e
                           | Inr html \<Rightarrow>
                               (case extractLinks (new_URL w) (anchor_hrefs w) html url of
                                  Inl e \<Rightarrow> Inl e
                                | Inr extractedLinks \<Rightarrow>
                                    if length extractedLinks = 0 then
                                      Inr (ScanJson \<lparr>totalLinks = 0, workingLinks = 0,
                                                     brokenLinks = 0, redirects = 0, links = []\<rparr>)
                                    else
                                      (case probe_loop (fetch_head w) extractedLinks 0 [] [] of
                                         Inl e \<Rightarrow> Inl e
                                       | Inr (linkResults, _) \<Rightarrow>
                                           Inr (ScanJson
                                             \<lparr>totalLinks = length linkResults,
                                              workingLinks = length (filter (\<lambda>link. isWorking link \<and> \<not> isRedirect link) linkResults),
                                              brokenLinks = length (filter (\<lambda>link. \<not> isWorking link) linkResults),
                                              redirects = length (filter (\<lambda>link. isRedirect link \<and> isWorking link) linkResults),
                                              links = linkResults\<rparr>)))))))"

definition POST :: "platform \<Rightarrow> js_exn + js_value \<Rightarrow> js_exn + reply" where
  "POST w body =
     try_catch (POST_try w body)
       (\<lambda>error. case error of
                   JsError name _ \<Rightarrow>
                     if name = ''AbortError''
                     then Inr (ErrorJson 408 ''Request timeout - the URL took too long to respond'')
                     else Inr (ErrorJson 500 ''Internal server error'')
                 | JsThrown \<Rightarrow> Inr (ErrorJson 500 ''Internal server error''))"

section \<open>The HTML export (page.tsx, lines 63 to 81)\<close>

text \<open>\<open>xs.join(sep)\<close>.\<close>

fun join :: "string \<Rightarrow> string list \<Rightarrow> string" where
  "join sep [] = []"
| "join sep [x] = x"
| "join sep (x # y # ys) = x @ sep @ join sep (y # ys)"

text \<open>Line 66: the links the export keeps.\<close>

definition export_selection :: "ScanResult \<Rightarrow> LinkResult list" where
  "export_selection result = filter (\<lambda>link. isWorking link) (links result)"

text \<open>Line 69: the anchor written for one link.\<close>

definition export_anchor :: "LinkResult \<Rightarrow> string" where
  \<open>export_anchor link =
     ''  <a href="'' @ finalUrl link @ ''" target="_blank" rel="noopener noreferrer">''
       @ finalUrl link @ ''</a>''\<close>

text \<open>
  The text of the downloaded file, or nothing when no result is on the page
  (\<open>if (!result) return\<close>).
\<close>

definition exportAsHTML :: "ScanResult option \<Rightarrow> string option" where
  \<open>exportAsHTML result =
     (case result of
        None \<Rightarrow> None
      | Some r \<Rightarrow>
          Some (''<!-- Cleaned Links from ClearOut.bio -->'' @ [CHR 0x0A]
                  @ ''<div class="bio-links">'' @ [CHR 0x0A]
                  @ join [CHR 0x0A] (map export_anchor (export_selection r)) @ [CHR 0x0A]
                  @ ''</div>''))\<close>

section \<open>Notions used to state the properties\<close>

text \<open>
  These are not functions of the source. \<open>first_occurrences\<close> removes from a list every
  element that occurred before (\<open>remdups\<close> keeps the last occurrence, so the list is
  reversed around it). \<open>normalized\<close> is the string \<open>normalizeUrl\<close> returns for an href of
  the page, \<open>kept\<close> the test of line 133, \<open>link_candidates\<close> the normalized hrefs that
  pass it, in document order, and \<open>push_new\<close> lines 135 to 137. \<open>probed head (k, link)\<close>
  is the result of probing \<open>link\<close> at position \<open>k\<close>.
\<close>

definition first_occurrences :: "'a list \<Rightarrow> 'a list" where
  "first_occurrences xs = rev (remdups (rev xs))"

definition normalized :: "url_ctor \<Rightarrow> string \<Rightarrow> string \<Rightarrow> string" where
  "normalized U baseUrl h = (case normalizeUrl_try U h (Some baseUrl) of Inl _ \<Rightarrow> h | Inr s \<Rightarrow> s)"

definition kept :: "url_ctor \<Rightarrow> string \<Rightarrow> bool" where
  "kept U n = ((case U n None of Inl _ \<Rightarrow> False | Inr _ \<Rightarrow> True)
                 \<and> \<not> startsWith n ''mailto:'' \<and> \<not> startsWith n ''tel:'')"

definition link_candidates :: "url_ctor \<Rightarrow> string option list \<Rightarrow> string \<Rightarrow> string list" where
  "link_candidates U attrs baseUrl =
     filter (kept U) (map (normalized U baseUrl) (List.map_filter given attrs))"

definition push_new :: "'a list \<Rightarrow> 'a \<Rightarrow> 'a list" where
  "push_new acc x = (if x \<in> set acc then acc else acc @ [x])"

definition probed :: "(nat \<Rightarrow> string \<Rightarrow> probe_run) \<Rightarrow> nat \<times> string \<Rightarrow> LinkResult" where
  "probed head p = projr (checkLink (head (fst p) (snd p)) (snd p))"

text \<open>
  Reading a snippet back: \<open>split_on\<close> cuts a text at every occurrence of a character,
  \<open>anchor_href\<close> is what stands between the opening \<open><a href="\<close> of an anchor line and
  the next double quote, and \<open>listed_hrefs\<close> are the targets of the anchor lines of a
  text, in the order of the lines.
\<close>

fun split_on :: "char \<Rightarrow> string \<Rightarrow> string list" where
  "split_on c [] = [[]]"
| "split_on c (x # xs) =
     (if x = c then [] # split_on c xs
      else (case split_on c xs of [] \<Rightarrow> [[x]] | l # ls \<Rightarrow> (x # l) # ls))"

definition anchor_href :: "string \<Rightarrow> string" where
  \<open>anchor_href line = takeWhile (\<lambda>c. c \<noteq> CHR 0x22) (drop (length ''  <a href="'') line)\<close>

definition listed_hrefs :: "string \<Rightarrow> string list" where
  \<open>listed_hrefs text =
     map anchor_href (filter (prefix ''  <a href="'') (split_on (CHR 0x0A) text))\<close>

section \<open>Fixtures for the worked examples\<close>

text \<open>
  A table of what the platform's \<open>URL\<close> class answers on the inputs the worked examples
  give it: \<open>rel\<close> resolved against \<open>https://a.com/x/y\<close> is \<open>https://a.com/x/rel\<close>, the
  absolute \<open>https\<close> addresses parse to themselves with their scheme and host as origin,
  the \<open>mailto:\<close> address parses to itself with the opaque origin \<open>null\<close>. The one string
  outside the table that the examples pass is \<open>not a url\<close>, which the \<open>URL\<close> class
  refuses with a \<open>TypeError\<close>.
\<close>

definition url_fixture :: url_ctor where
  "url_fixture input base =
     (if input = ''rel'' \<and> base = Some ''https://a.com/x/y'' then
        Inr \<lparr>origin = ''https://a.com'', href = ''https://a.com/x/rel''\<rparr>
      else if input \<in> set [''https://a.com/x'', ''https://a.com/ok'', ''https://a.com/missing'',
                             ''https://a.com/old''] then
        Inr \<lparr>origin = ''https://a.com'', href = input\<rparr>
      else if input \<in> set [''https://bio.example/me'', ''https://bio.example/empty''] then
        Inr \<lparr>origin = ''https://bio.example'', href = input\<rparr>
      else if input = ''mailto:me@a.com'' then
        Inr \<lparr>origin = ''null'', href = input\<rparr>
      else Inl (JsError ''TypeError'' ''Invalid URL''))"

text \<open>
  A bio page with five anchors, their \<open>href\<close> attributes written as absolute addresses:
  a link that answers 200, one that answers 404 with no reason phrase, one that answers
  200 from another address, a \<open>mailto:\<close> link and the first link again. \<open>bio_anchors\<close>
  gives the attributes as they are written in the page. Every other probe is aborted by
  its timeout.
\<close>

definition bio_html :: string where
  \<open>bio_html = ''<a href="https://a.com/ok">1</a><a href="https://a.com/missing">2</a><a href="https://a.com/old">3</a><a href="mailto:me@a.com">4</a><a href="https://a.com/ok">5</a>''\<close>

definition bio_anchors :: "string \<Rightarrow> string option list" where
  "bio_anchors html =
     (if html = bio_html then
        [Some ''https://a.com/ok'', Some ''https://a.com/missing'', Some ''https://a.com/old'',
         Some ''mailto:me@a.com'', Some ''https://a.com/ok'']
      else [])"

definition bio_get :: "string \<Rightarrow> js_exn + Response" where
  "bio_get url =
     (if url = ''https://bio.example/me'' then
        Inr \<lparr>resp_url = url, resp_status = 200, resp_statusText = ''OK'', resp_ok = True,
             resp_text = Inr bio_html\<rparr>
      else if url = ''https://bio.example/empty'' then
        Inr \<lparr>resp_url = url, resp_status = 200, resp_statusText = ''OK'', resp_ok = True,
             resp_text = Inr ''<p>nothing here</p>''\<rparr>
      else Inl (JsError ''TypeError'' ''fetch failed''))"

definition bio_head :: "nat \<Rightarrow> string \<Rightarrow> probe_run" where
  "bio_head k link =
     (if link = ''https://a.com/ok'' then
        \<lparr>t_start = 1000, fetched = Inr \<lparr>resp_url = link, resp_status = 200,
           resp_statusText = ''OK'', resp_ok = True, resp_text = Inr []\<rparr>, t_end = 1040\<rparr>
      else if link = ''https://a.com/missing'' then
        \<lparr>t_start = 1000, fetched = Inr \<lparr>resp_url = link, resp_status = 404,
           resp_statusText = [], resp_ok = False, resp_text = Inr []\<rparr>, t_end = 1025\<rparr>
      else if link = ''https://a.com/old'' then
        \<lparr>t_start = 1000, fetched = Inr \<lparr>resp_url = ''https://a.com/new'', resp_status = 200,
           resp_statusText = ''OK'', resp_ok = True, resp_text = Inr []\<rparr>, t_end = 1090\<rparr>
      else
        \<lparr>t_start = 1000, fetched = Inl (JsError ''AbortError'' ''This operation was aborted''),
         t_end = 11000\<rparr>)"

definition bio_platform :: platform where
  "bio_platform =
     \<lparr>new_URL = url_fixture, anchor_hrefs = bio_anchors, fetch_get = bio_get,
      fetch_head = bio_head\<rparr>"

definition bio_links :: "LinkResult list" where
  "bio_links =
     [\<lparr>originalUrl = ''https://a.com/ok'', finalUrl = ''https://a.com/ok'', status = 200,
       statusText = ''OK'', isWorking = True, isRedirect = False, responseTime = 40\<rparr>,
      \<lparr>originalUrl = ''https://a.com/missing'', finalUrl = ''https://a.com/missing'',
       status = 404, statusText = ''Not Found'', isWorking = False, isRedirect = False,
       responseTime = 25\<rparr>,
      \<lparr>originalUrl = ''https://a.com/old'', finalUrl = ''https://a.com/new'', status = 200,
       statusText = ''OK'', isWorking = True, isRedirect = True, responseTime = 90\<rparr>]"

definition bio_scan :: ScanResult where
  "bio_scan =
     \<lparr>totalLinks = 3, workingLinks = 1, brokenLinks = 1, redirects = 1, links = bio_links\<rparr>"

text \<open>Twelve links that no server answers.\<close>

definition twelve_links :: "string list" where
  "twelve_links = map (\<lambda>c. ''https://t.co/'' @ [c]) ''abcdefghijkl''"

section \<open>Properties of the URL helpers\<close>

lemma isValidUrl_value:
  "isValidUrl U s = Inr (case U s None of Inl _ \<Rightarrow> False | Inr _ \<Rightarrow> True)"
  by (simp add: isValidUrl_def try_catch_def split: sum.splits)

lemma normalizeUrl_value:
  "normalizeUrl U url baseUrl =
     Inr (case normalizeUrl_try U url baseUrl of Inl _ \<Rightarrow> url | Inr s \<Rightarrow> s)"
  by (simp add: normalizeUrl_def try_catch_def split: sum.splits)

text \<open>
  C10. \<open>normalizeUrl\<close> never throws: for every href and every base URL (absent, empty or
  unparsable ones included) it returns a string, and when one of the two \<open>new URL\<close> calls
  in its body throws, the string returned is the href it was given.
\<close>

theorem normalizeUrl_never_throws:
  "(\<exists>s. normalizeUrl U url baseUrl = Inr s) \<and>
   (\<forall>e. normalizeUrl_try U url baseUrl = Inl e \<longrightarrow> normalizeUrl U url baseUrl = Inr url)"
  by (simp add: normalizeUrl_def try_catch_def split: sum.splits)

theorem normalizeUrl_never_throws_witness:
  "normalizeUrl_try url_fixture ''/about'' (Some ''not a url'')
     = Inl (JsError ''TypeError'' ''Invalid URL'') \<and>
   normalizeUrl url_fixture ''/about'' (Some ''not a url'') = Inr ''/about''"
proof -
  have body: "normalizeUrl_try url_fixture ''/about'' (Some ''not a url'')
                = Inl (JsError ''TypeError'' ''Invalid URL'')"
    by (simp add: normalizeUrl_try_def startsWith_def given_def url_fixture_def)
  from normalizeUrl_never_throws [of url_fixture "''/about''" "Some ''not a url''"] body
  show ?thesis by simp
qed

text \<open>
  C7. The worked examples of the normalizer: \<open>/path\<close> against \<open>https://a.com/x\<close> gives
  \<open>https://a.com/path\<close>, \<open>//a.com/p\<close> gives \<open>https://a.com/p\<close> against any base, and
  \<open>rel\<close> against \<open>https://a.com/x/y\<close> gives \<open>https://a.com/x/rel\<close>. The first and the
  third go through the platform's \<open>URL\<close> class, so they are stated for every \<open>URL\<close>
  constructor that gives \<open>https://a.com/x\<close> the origin \<open>https://a.com\<close> and resolves
  \<open>rel\<close> against \<open>https://a.com/x/y\<close> to \<open>https://a.com/x/rel\<close>, as the URL standard does.
\<close>

theorem normalizeUrl_examples:
  assumes "U ''https://a.com/x'' None = Inr b" and "origin b = ''https://a.com''"
    and "U ''rel'' (Some ''https://a.com/x/y'') = Inr r" and "href r = ''https://a.com/x/rel''"
  shows "normalizeUrl U ''/path'' (Some ''https://a.com/x'') = Inr ''https://a.com/path'' \<and>
         normalizeUrl U ''//a.com/p'' baseUrl = Inr ''https://a.com/p'' \<and>
         normalizeUrl U ''rel'' (Some ''https://a.com/x/y'') = Inr ''https://a.com/x/rel''"
proof -
  have root: "normalizeUrl U ''/path'' (Some ''https://a.com/x'') = Inr ''https://a.com/path''"
    using assms(1,2)
    by (simp add: normalizeUrl_def normalizeUrl_try_def try_catch_def startsWith_def given_def)
  have proto: "normalizeUrl U ''//a.com/p'' baseUrl = Inr ''https://a.com/p''"
    by (simp add: normalizeUrl_def normalizeUrl_try_def try_catch_def startsWith_def)
  have rel: "normalizeUrl U ''rel'' (Some ''https://a.com/x/y'') = Inr ''https://a.com/x/rel''"
    using assms(3,4)
    by (simp add: normalizeUrl_def normalizeUrl_try_def try_catch_def startsWith_def given_def)
  from root proto rel show ?thesis by simp
qed

theorem normalizeUrl_examples_witness:
  "normalizeUrl url_fixture ''/path'' (Some ''https://a.com/x'') = Inr ''https://a.com/path'' \<and>
   normalizeUrl url_fixture ''//a.com/p'' (Some ''https://b.org/'') = Inr ''https://a.com/p'' \<and>
   normalizeUrl url_fixture ''rel'' (Some ''https://a.com/x/y'') = Inr ''https://a.com/x/rel''"
proof -
  have b: "url_fixture ''https://a.com/x'' None
             = Inr \<lparr>origin = ''https://a.com'', href = ''https://a.com/x''\<rparr>"
    by (simp add: url_fixture_def)
  have r: "url_fixture ''rel'' (Some ''https://a.com/x/y'')
             = Inr \<lparr>origin = ''https://a.com'', href = ''https://a.com/x/rel''\<rparr>"
    by (simp add: url_fixture_def)
  show ?thesis
    by (rule normalizeUrl_examples [OF b _ r]) simp_all
qed

section \<open>Properties of the link prober\<close>

text \<open>
  C3. A probe that gets a response returns a \<open>LinkResult\<close> whose \<open>finalUrl\<close> is the
  address the response was served from and whose \<open>isRedirect\<close> is true exactly when that
  \<open>finalUrl\<close> differs from the probed URL. The request of line 65 names no \<open>mode\<close>, so
  the response it resolves to is never an opaque one and its \<open>url\<close> member is not empty:
  that is the second hypothesis.
\<close>

theorem checkLink_isRedirect_exposed_url:
  assumes "fetched run = Inr response" and "resp_url response \<noteq> []"
  shows "\<exists>l. checkLink run url = Inr l \<and>
             finalUrl l = resp_url response \<and>
             (isRedirect l \<longleftrightarrow> finalUrl l \<noteq> url)"
  using assms by (simp add: checkLink_def checkLink_try_def try_catch_def or_else_def)

theorem checkLink_isRedirect_exposed_url_witness:
  "checkLink (bio_head 2 ''https://a.com/old'') ''https://a.com/old''
     = Inr \<lparr>originalUrl = ''https://a.com/old'', finalUrl = ''https://a.com/new'', status = 200,
            statusText = ''OK'', isWorking = True, isRedirect = True, responseTime = 90\<rparr> \<and>
   ''https://a.com/new'' \<noteq> ''https://a.com/old''"
proof -
  let ?response = "\<lparr>resp_url = ''https://a.com/new'', resp_status = 200,
                    resp_statusText = ''OK'', resp_ok = True, resp_text = Inr []\<rparr>"
  have f: "fetched (bio_head 2 ''https://a.com/old'') = Inr ?response"
    by (simp add: bio_head_def)
  have u: "resp_url ?response \<noteq> []" by simp
  from checkLink_isRedirect_exposed_url [OF f u, of "''https://a.com/old''"]
  obtain l where run: "checkLink (bio_head 2 ''https://a.com/old'') ''https://a.com/old'' = Inr l"
    and final: "finalUrl l = ''https://a.com/new''"
    and redirect: "isRedirect l \<longleftrightarrow> finalUrl l \<noteq> ''https://a.com/old''"
    by auto
  from final redirect have r: "isRedirect l" by simp
  have rest: "originalUrl l = ''https://a.com/old'' \<and> status l = 200 \<and> statusText l = ''OK'' \<and>
              isWorking l \<and> responseTime l = 90"
    using run
    by (auto simp: checkLink_def checkLink_try_def try_catch_def or_else_def bio_head_def)
  have "l = \<lparr>originalUrl = ''https://a.com/old'', finalUrl = ''https://a.com/new'', status = 200,
            statusText = ''OK'', isWorking = True, isRedirect = True, responseTime = 90\<rparr>"
    using final r rest by simp
  with run show ?thesis by simp
qed

text \<open>
  The second hypothesis cannot be dropped in the model: on a response with an empty
  \<open>url\<close> member line 82 falls back to the probed URL and line 77 does not.
\<close>

lemma checkLink_empty_response_url:
  "checkLink \<lparr>t_start = 0,
              fetched = Inr \<lparr>resp_url = [], resp_status = 200, resp_statusText = ''OK'',
                             resp_ok = True, resp_text = Inr []\<rparr>,
              t_end = 5\<rparr> ''https://a.com/''
     = Inr \<lparr>originalUrl = ''https://a.com/'', finalUrl = ''https://a.com/'', status = 200,
            statusText = ''OK'', isWorking = True, isRedirect = True, responseTime = 5\<rparr>"
  by (simp add: checkLink_def checkLink_try_def try_catch_def or_else_def)

text \<open>
  C5. \<open>checkLink\<close> never throws: it returns a \<open>LinkResult\<close> whatever the request does, and
  when the request fails (\<open>fetch\<close> throws: DNS, connection, TLS, abort by the timeout,
  malformed response) the result has status 0, the message of the error as status text
  (\<open>Network Error\<close> when the thrown value is not an \<open>Error\<close>), the probed URL as final URL,
  and is neither working nor a redirect.
\<close>

theorem checkLink_never_throws:
  "(\<exists>l. checkLink run url = Inr l) \<and>
   (\<forall>e. fetched run = Inl e \<longrightarrow>
      checkLink run url =
        Inr \<lparr>originalUrl = url, finalUrl = url, status = 0,
             statusText = (case e of JsError _ message \<Rightarrow> message | JsThrown \<Rightarrow> ''Network Error''),
             isWorking = False, isRedirect = False,
             responseTime = t_end run - t_start run\<rparr>)"
  by (simp add: checkLink_def checkLink_try_def try_catch_def split: sum.splits)

theorem checkLink_never_throws_witness:
  "fetched (bio_head 0 ''https://a.com/slow'')
     = Inl (JsError ''AbortError'' ''This operation was aborted'') \<and>
   checkLink (bio_head 0 ''https://a.com/slow'') ''https://a.com/slow''
     = Inr \<lparr>originalUrl = ''https://a.com/slow'', finalUrl = ''https://a.com/slow'', status = 0,
            statusText = ''This operation was aborted'', isWorking = False, isRedirect = False,
            responseTime = 10000\<rparr>"
proof -
  have f: "fetched (bio_head 0 ''https://a.com/slow'')
             = Inl (JsError ''AbortError'' ''This operation was aborted'')"
    by (simp add: bio_head_def)
  have t: "t_end (bio_head 0 ''https://a.com/slow'') - t_start (bio_head 0 ''https://a.com/slow'')
             = 10000"
    by (simp add: bio_head_def)
  from checkLink_never_throws [of "bio_head 0 ''https://a.com/slow''" "''https://a.com/slow''"] f t
  show ?thesis by simp
qed

section \<open>Properties of the link extractor\<close>

lemma remdups_drop_repeated:
  "x \<in> set zs \<Longrightarrow> remdups (ys @ x # zs) = remdups (ys @ zs)"
  by (induction ys) auto

lemma first_occurrences_snoc:
  "first_occurrences (acc @ x # xs) = first_occurrences (push_new acc x @ xs)"
  by (simp add: first_occurrences_def push_new_def remdups_drop_repeated)

lemma foldl_push_new:
  "foldl push_new acc xs = first_occurrences (acc @ xs)" if "distinct acc"
  using that
proof (induction xs arbitrary: acc)
  case Nil
  then show ?case by (simp add: first_occurrences_def distinct_remdups_id)
next
  case (Cons x xs)
  have "distinct (push_new acc x)" using Cons.prems by (simp add: push_new_def)
  then have "foldl push_new (push_new acc x) xs = first_occurrences (push_new acc x @ xs)"
    by (rule Cons.IH)
  then show ?case by (simp add: first_occurrences_snoc)
qed

lemma href_callback_value:
  "href_callback U baseUrl found attr =
     Inr (case given attr of
            None \<Rightarrow> found
          | Some h \<Rightarrow> if kept U (normalized U baseUrl h)
                      then push_new found (normalized U baseUrl h) else found)"
  by (simp add: href_callback_def normalizeUrl_value isValidUrl_value kept_def normalized_def
                push_new_def split: option.splits)

lemma each_href_callback:
  "each (href_callback U baseUrl) attrs found
     = Inr (foldl push_new found (link_candidates U attrs baseUrl))"
proof (induction attrs arbitrary: found)
  case Nil
  then show ?case by (simp add: link_candidates_def List.map_filter_simps)
next
  case (Cons a attrs)
  then show ?case
    by (simp add: href_callback_value link_candidates_def List.map_filter_simps
             split: option.splits)
qed

lemma extractLinks_value:
  "extractLinks U anchors html baseUrl
     = Inr (first_occurrences (link_candidates U (anchors html) baseUrl))"
  by (simp add: extractLinks_def each_href_callback foldl_push_new)

text \<open>
  C8. For every page and base URL, \<open>extractLinks\<close> returns a list without duplicates, none
  of whose entries starts with \<open>mailto:\<close> or \<open>tel:\<close>; the list is the normalized hrefs
  that pass the validity test, in document order, each kept at its first occurrence only.
\<close>

theorem extractLinks_unique_no_mailto_tel:
  "\<exists>ls. extractLinks U anchors html baseUrl = Inr ls \<and>
        distinct ls \<and>
        (\<forall>l \<in> set ls. \<not> startsWith l ''mailto:'' \<and> \<not> startsWith l ''tel:'') \<and>
        ls = first_occurrences (link_candidates U (anchors html) baseUrl)"
proof -
  let ?ls = "first_occurrences (link_candidates U (anchors html) baseUrl)"
  have "distinct ?ls" by (simp add: first_occurrences_def)
  moreover have "\<forall>l \<in> set ?ls. \<not> startsWith l ''mailto:'' \<and> \<not> startsWith l ''tel:''"
    by (auto simp: first_occurrences_def link_candidates_def kept_def)
  ultimately show ?thesis by (simp add: extractLinks_value)
qed

lemma bio_extract:
  "extractLinks url_fixture bio_anchors bio_html ''https://bio.example/me''
     = Inr [''https://a.com/ok'', ''https://a.com/missing'', ''https://a.com/old'']"
  by (simp add: extractLinks_def bio_anchors_def href_callback_def given_def normalizeUrl_def
        normalizeUrl_try_def try_catch_def startsWith_def isValidUrl_def url_fixture_def)

theorem extractLinks_unique_no_mailto_tel_witness:
  "extractLinks url_fixture bio_anchors bio_html ''https://bio.example/me''
     = Inr [''https://a.com/ok'', ''https://a.com/missing'', ''https://a.com/old''] \<and>
   distinct [''https://a.com/ok'', ''https://a.com/missing'', ''https://a.com/old''] \<and>
   \<not> startsWith ''https://a.com/old'' ''mailto:'' \<and> \<not> startsWith ''https://a.com/old'' ''tel:'' \<and>
   first_occurrences (link_candidates url_fixture (bio_anchors bio_html) ''https://bio.example/me'')
     = [''https://a.com/ok'', ''https://a.com/missing'', ''https://a.com/old'']"
proof -
  from extractLinks_unique_no_mailto_tel
         [of url_fixture bio_anchors bio_html "''https://bio.example/me''"]
  obtain ls where run: "extractLinks url_fixture bio_anchors bio_html ''https://bio.example/me'' = Inr ls"
    and props: "distinct ls"
      "\<forall>l \<in> set ls. \<not> startsWith l ''mailto:'' \<and> \<not> startsWith l ''tel:''"
      "ls = first_occurrences (link_candidates url_fixture (bio_anchors bio_html) ''https://bio.example/me'')"
    by blast
  from run have eq: "ls = [''https://a.com/ok'', ''https://a.com/missing'', ''https://a.com/old'']"
    by (simp add: bio_extract)
  from props(2) have no_scheme:
    "\<not> startsWith ''https://a.com/old'' ''mailto:'' \<and> \<not> startsWith ''https://a.com/old'' ''tel:''"
    unfolding eq by simp
  from props(3) have first:
    "first_occurrences (link_candidates url_fixture (bio_anchors bio_html) ''https://bio.example/me'')
       = [''https://a.com/ok'', ''https://a.com/missing'', ''https://a.com/old'']"
    unfolding eq by (rule sym)
  from props(1) have dist:
    "distinct [''https://a.com/ok'', ''https://a.com/missing'', ''https://a.com/old'']"
    unfolding eq by assumption
  from run have run': "extractLinks url_fixture bio_anchors bio_html ''https://bio.example/me''
     = Inr [''https://a.com/ok'', ''https://a.com/missing'', ''https://a.com/old'']"
    unfolding eq by assumption
  from run' dist no_scheme first show ?thesis by (intro conjI) (erule conjunct1 conjunct2 | assumption)+
qed

section \<open>Properties of the batch loop\<close>

lemma promise_all_values: "promise_all (map Inr vs) = Inr vs"
  by (induction vs) auto

lemma checkLink_value: "checkLink run url = Inr (projr (checkLink run url))"
  by (simp add: checkLink_def checkLink_try_def try_catch_def split: sum.splits)

lemma promise_all_batch:
  "promise_all (map (\<lambda>(k, link). checkLink (head k link) link) ps) = Inr (map (probed head) ps)"
proof -
  have "map (\<lambda>(k, link). checkLink (head k link) link) ps = map Inr (map (probed head) ps)"
    using checkLink_value by (auto simp: probed_def)
  then show ?thesis by (simp only: promise_all_values)
qed

lemma enumerate_batch_rest:
  "enumerate i (take m xs) @ enumerate (i + m) (drop m xs) = enumerate i xs"
proof (cases "m \<le> length xs")
  case True
  have "enumerate i (take m xs @ drop m xs)
          = enumerate i (take m xs) @ enumerate (i + length (take m xs)) (drop m xs)"
    by (rule enumerate_append_eq)
  with True show ?thesis by (simp add: min_def)
next
  case False
  then show ?thesis by simp
qed

lemma probe_loop_value:
  "\<exists>bs'. probe_loop head urls i acc bs
            = Inr (acc @ map (probed head) (enumerate i (drop i urls)), bs') \<and>
         concat bs' = concat bs @ drop i urls \<and>
         (\<forall>b \<in> set bs'. b \<in> set bs \<or> (b \<noteq> [] \<and> length b \<le> maxConcurrent))"
proof (induction head urls i acc bs rule: probe_loop.induct)
  case (1 head urls i acc bs)
  show ?case
  proof (cases "i < length urls")
    case False
    then show ?thesis by (subst probe_loop.simps) simp
  next
    case True
    let ?batch = "slice urls i (i + maxConcurrent)"
    let ?res = "map (probed head) (enumerate i ?batch)"
    have batch: "?batch = take maxConcurrent (drop i urls)"
      by (simp add: slice_def)
    have pa: "promise_all (map (\<lambda>(k, link). checkLink (head k link) link) (enumerate i ?batch))
                = Inr ?res"
      by (rule promise_all_batch)
    from "1.IH" [OF True pa]
    obtain bs' where
      run: "probe_loop head urls (i + maxConcurrent) (acc @ ?res) (bs @ [?batch])
              = Inr ((acc @ ?res) @ map (probed head)
                       (enumerate (i + maxConcurrent) (drop (i + maxConcurrent) urls)), bs')"
      and cat: "concat bs' = concat (bs @ [?batch]) @ drop (i + maxConcurrent) urls"
      and len: "\<forall>b \<in> set bs'. b \<in> set (bs @ [?batch]) \<or> (b \<noteq> [] \<and> length b \<le> maxConcurrent)"
      by blast
    have step: "probe_loop head urls i acc bs
                  = probe_loop head urls (i + maxConcurrent) (acc @ ?res) (bs @ [?batch])"
      using True pa by (subst probe_loop.simps) simp
    have split: "enumerate i ?batch @ enumerate (i + maxConcurrent) (drop (i + maxConcurrent) urls)
                   = enumerate i (drop i urls)"
      unfolding batch using enumerate_batch_rest [of i maxConcurrent "drop i urls"]
      by (simp add: add.commute)
    have results: "(acc @ ?res) @ map (probed head)
                       (enumerate (i + maxConcurrent) (drop (i + maxConcurrent) urls))
                     = acc @ map (probed head) (enumerate i (drop i urls))"
      using split by (metis append_assoc map_append)
    have cat': "concat bs' = concat bs @ drop i urls"
    proof -
      have "drop (i + maxConcurrent) urls = drop maxConcurrent (drop i urls)"
        by (simp add: add.commute)
      then have "?batch @ drop (i + maxConcurrent) urls = drop i urls"
        unfolding batch by (simp only: append_take_drop_id)
      with cat show ?thesis by simp
    qed
    have nonempty: "?batch \<noteq> []" "length ?batch \<le> maxConcurrent"
      using True by (simp_all add: slice_def maxConcurrent_def)
    have len': "\<forall>b \<in> set bs'. b \<in> set bs \<or> (b \<noteq> [] \<and> length b \<le> maxConcurrent)"
      using len nonempty by auto
    from run step results cat' len' show ?thesis by simp
  qed
qed

text \<open>
  C4. The batch loop returns one \<open>LinkResult\<close> per extracted link: the results are as many
  as the links, the result at position \<open>k\<close> is the probe of the link at position \<open>k\<close> and
  carries it as \<open>originalUrl\<close>, and the rounds take consecutive, non-empty slices of at
  most 10 links that together are the input. \<open>Promise.all\<close> gives the results of a batch
  by position, so the order in which the probes settle does not enter.
\<close>

theorem probe_loop_one_result_per_url:
  "\<exists>rs bs. probe_loop head urls 0 [] [] = Inr (rs, bs) \<and>
          length rs = length urls \<and>
          (\<forall>k < length urls. checkLink (head k (urls ! k)) (urls ! k) = Inr (rs ! k) \<and>
                             originalUrl (rs ! k) = urls ! k) \<and>
          concat bs = urls \<and>
          (\<forall>b \<in> set bs. b \<noteq> [] \<and> length b \<le> 10)"
proof -
  from probe_loop_value [of head urls 0 "[]" "[]"]
  obtain bs where run: "probe_loop head urls 0 [] [] = Inr (map (probed head) (enumerate 0 urls), bs)"
    and cat: "concat bs = urls"
    and len: "\<forall>b \<in> set bs. b \<noteq> [] \<and> length b \<le> maxConcurrent"
    by auto
  let ?rs = "map (probed head) (enumerate 0 urls)"
  have nth: "checkLink (head k (urls ! k)) (urls ! k) = Inr (?rs ! k)" if "k < length urls" for k
    using that checkLink_value by (simp add: probed_def nth_enumerate_eq)
  have orig: "originalUrl (?rs ! k) = urls ! k" if "k < length urls" for k
  proof -
    have "originalUrl l = url" if "checkLink run url = Inr l" for run url l
      using that by (auto simp: checkLink_def checkLink_try_def try_catch_def split: sum.splits)
    with nth [OF that] show ?thesis by blast
  qed
  from run cat len nth orig show ?thesis by (simp add: maxConcurrent_def)
qed

lemma bio_probe:
  "probe_loop bio_head [''https://a.com/ok'', ''https://a.com/missing'', ''https://a.com/old''] 0 [] []
     = Inr (bio_links, [[''https://a.com/ok'', ''https://a.com/missing'', ''https://a.com/old'']])"
  by (simp add: probe_loop.simps maxConcurrent_def slice_def enumerate_eq_zip bio_head_def
        checkLink_def checkLink_try_def try_catch_def or_else_def getStatusText_def
        statusTexts_def bio_links_def)

lemma twelve_probe:
  "probe_loop bio_head twelve_links 0 [] []
     = Inr (map (\<lambda>u. \<lparr>originalUrl = u, finalUrl = u, status = 0,
                        statusText = ''This operation was aborted'', isWorking = False,
                        isRedirect = False, responseTime = 10000\<rparr>) twelve_links,
            [take 10 twelve_links, drop 10 twelve_links])"
  by (simp add: probe_loop.simps maxConcurrent_def slice_def enumerate_eq_zip bio_head_def
        checkLink_def checkLink_try_def try_catch_def twelve_links_def upt_rec)


theorem probe_loop_one_result_per_url_witness:
  "probe_loop bio_head twelve_links 0 [] []
     = Inr (map (\<lambda>u. \<lparr>originalUrl = u, finalUrl = u, status = 0,
                        statusText = ''This operation was aborted'', isWorking = False,
                        isRedirect = False, responseTime = 10000\<rparr>) twelve_links,
            [take 10 twelve_links, drop 10 twelve_links]) \<and>
   length twelve_links = 12 \<and>
   checkLink (bio_head 11 ''https://t.co/l'') ''https://t.co/l''
     = Inr \<lparr>originalUrl = ''https://t.co/l'', finalUrl = ''https://t.co/l'', status = 0,
            statusText = ''This operation was aborted'', isWorking = False,
            isRedirect = False, responseTime = 10000\<rparr> \<and>
   concat [take 10 twelve_links, drop 10 twelve_links] = twelve_links \<and>
   length (take 10 twelve_links) \<le> 10 \<and> length (drop 10 twelve_links) \<le> 10"
proof -
  from probe_loop_one_result_per_url [of bio_head twelve_links]
  obtain rs bs where run: "probe_loop bio_head twelve_links 0 [] [] = Inr (rs, bs)"
    and len: "length rs = length twelve_links"
    and nth: "\<forall>k < length twelve_links.
                checkLink (bio_head k (twelve_links ! k)) (twelve_links ! k) = Inr (rs ! k) \<and>
                originalUrl (rs ! k) = twelve_links ! k"
    and cat: "concat bs = twelve_links"
    and bound: "\<forall>b \<in> set bs. b \<noteq> [] \<and> length b \<le> 10"
    by blast
  from run [unfolded twelve_probe] have rs: "rs = map (\<lambda>u. \<lparr>originalUrl = u, finalUrl = u, status = 0,
                        statusText = ''This operation was aborted'', isWorking = False,
                        isRedirect = False, responseTime = 10000\<rparr>) twelve_links"
    and bs: "bs = [take 10 twelve_links, drop 10 twelve_links]"
    by simp_all
  have n: "length twelve_links = 12" and last: "twelve_links ! 11 = ''https://t.co/l''"
    by (simp_all add: twelve_links_def)
  from nth n have "checkLink (bio_head 11 (twelve_links ! 11)) (twelve_links ! 11) = Inr (rs ! 11)"
    by simp
  then have probe: "checkLink (bio_head 11 ''https://t.co/l'') ''https://t.co/l''
     = Inr \<lparr>originalUrl = ''https://t.co/l'', finalUrl = ''https://t.co/l'', status = 0,
            statusText = ''This operation was aborted'', isWorking = False,
            isRedirect = False, responseTime = 10000\<rparr>"
    by (simp add: rs n last)
  from bound have b: "length (take 10 twelve_links) \<le> 10 \<and> length (drop 10 twelve_links) \<le> 10"
    unfolding bs by simp
  from run cat n probe b show ?thesis unfolding rs bs by simp
qed

section \<open>Properties of the request handler\<close>

lemma POST_scan_counts:
  assumes "POST w body = Inr (ScanJson r)"
  shows "totalLinks r = length (links r) \<and>
         workingLinks r = length (filter (\<lambda>link. isWorking link \<and> \<not> isRedirect link) (links r)) \<and>
         redirects r = length (filter (\<lambda>link. isRedirect link \<and> isWorking link) (links r)) \<and>
         brokenLinks r = length (filter (\<lambda>link. \<not> isWorking link) (links r))"
  using assms
  by (auto simp: POST_def POST_try_def try_catch_def
           split: sum.splits js_value.splits if_splits prod.splits js_exn.splits)

lemma three_buckets:
  "length (filter (\<lambda>link. isWorking link \<and> \<not> isRedirect link) ls)
     + length (filter (\<lambda>link. isRedirect link \<and> isWorking link) ls)
     + length (filter (\<lambda>link. \<not> isWorking link) ls) = length ls"
  by (induction ls) auto

lemma bio_POST:
  "POST bio_platform (Inr (JsString ''https://bio.example/me'')) = Inr (ScanJson bio_scan)"
  by (simp add: POST_def POST_try_def try_catch_def bio_platform_def isValidUrl_value
        url_fixture_def bio_get_def bio_extract bio_probe bio_scan_def bio_links_def)

text \<open>
  C6. For every \<open>ScanResult\<close> the handler returns, \<open>workingLinks\<close> counts the links that
  work and are no redirects, \<open>redirects\<close> those that work and are redirects, \<open>brokenLinks\<close>
  those that do not work, and the three add up to \<open>totalLinks\<close>.
\<close>

theorem POST_three_buckets:
  assumes "POST w body = Inr (ScanJson r)"
  shows "workingLinks r + redirects r + brokenLinks r = totalLinks r \<and>
         workingLinks r = length (filter (\<lambda>link. isWorking link \<and> \<not> isRedirect link) (links r)) \<and>
         redirects r = length (filter (\<lambda>link. isWorking link \<and> isRedirect link) (links r)) \<and>
         brokenLinks r = length (filter (\<lambda>link. \<not> isWorking link) (links r))"
proof -
  note c = POST_scan_counts [OF assms]
  have swap: "(\<lambda>link. isWorking link \<and> isRedirect link) = (\<lambda>link. isRedirect link \<and> isWorking link)"
    by auto
  from c three_buckets [of "links r"] show ?thesis by (simp add: swap)
qed

theorem POST_three_buckets_witness:
  "POST bio_platform (Inr (JsString ''https://bio.example/me'')) = Inr (ScanJson bio_scan) \<and>
   workingLinks bio_scan + redirects bio_scan + brokenLinks bio_scan = totalLinks bio_scan \<and>
   workingLinks bio_scan = 1 \<and> redirects bio_scan = 1 \<and> brokenLinks bio_scan = 1 \<and>
   totalLinks bio_scan = 3"
  using POST_three_buckets [OF bio_POST] bio_POST by (simp add: bio_scan_def)

text \<open>
  C9. When the request names a valid URL, the page is fetched with a success status, its
  text is read and no link is extracted from it, the handler answers with a \<open>ScanResult\<close>
  whose four counts are 0 and whose list of links is empty, not with an error.
\<close>

theorem POST_no_links:
  assumes "body = Inr (JsString url)" and "url \<noteq> []"
    and "new_URL w url None = Inr u"
    and "fetch_get w url = Inr response" and "resp_ok response"
    and "resp_text response = Inr html"
    and "extractLinks (new_URL w) (anchor_hrefs w) html url = Inr []"
  shows "POST w body = Inr (ScanJson \<lparr>totalLinks = 0, workingLinks = 0, brokenLinks = 0,
                                       redirects = 0, links = []\<rparr>)"
  using assms by (simp add: POST_def POST_try_def try_catch_def isValidUrl_value)

theorem POST_no_links_witness:
  "POST bio_platform (Inr (JsString ''https://bio.example/empty''))
     = Inr (ScanJson \<lparr>totalLinks = 0, workingLinks = 0, brokenLinks = 0, redirects = 0,
                      links = []\<rparr>)"
proof -
  let ?url = "''https://bio.example/empty''"
  let ?response = "\<lparr>resp_url = ?url, resp_status = 200, resp_statusText = ''OK'',
                    resp_ok = True, resp_text = Inr ''<p>nothing here</p>''\<rparr>"
  have valid: "new_URL bio_platform ?url None
                 = Inr \<lparr>origin = ''https://bio.example'', href = ?url\<rparr>"
    by (simp add: bio_platform_def url_fixture_def)
  have page: "fetch_get bio_platform ?url = Inr ?response"
    by (simp add: bio_platform_def bio_get_def)
  have none: "extractLinks (new_URL bio_platform) (anchor_hrefs bio_platform)
                ''<p>nothing here</p>'' ?url = Inr []"
    by (simp add: bio_platform_def extractLinks_def bio_anchors_def bio_html_def)
  show ?thesis
    by (rule POST_no_links [OF refl _ valid page _ _ none]) simp_all
qed




section \<open>Properties of the HTML export\<close>

lemma export_selection_buckets:
  "length (filter (\<lambda>link. isWorking link) ls)
     = length (filter (\<lambda>link. isWorking link \<and> \<not> isRedirect link) ls)
       + length (filter (\<lambda>link. isRedirect link \<and> isWorking link) ls)"
  by (induction ls) auto

lemma split_on_nonempty: "split_on c xs \<noteq> []"
  by (induction xs) (auto split: list.splits)

lemma split_on_line: "c \<notin> set a \<Longrightarrow> split_on c (a @ c # rest) = a # split_on c rest"
  by (induction a) (auto split: list.splits)

lemma split_on_last: "c \<notin> set a \<Longrightarrow> split_on c a = [a]"
  by (induction a) (auto split: list.splits)

lemma split_on_join:
  assumes "\<forall>x \<in> set xs. c \<notin> set x" and "c \<notin> set tail"
  shows "split_on c (join [c] xs @ c # tail) = (if xs = [] then [[]] else xs) @ [tail]"
  using assms
proof (induction "[c]" xs rule: join.induct)
  case 1
  then show ?case by (simp add: split_on_last)
next
  case (2 x)
  then show ?case by (simp add: split_on_line split_on_last)
next
  case (3 x y ys)
  have "split_on c (join [c] (x # y # ys) @ c # tail)
          = split_on c (x @ c # (join [c] (y # ys) @ c # tail))"
    by simp
  also have "\<dots> = x # split_on c (join [c] (y # ys) @ c # tail)"
    using "3.prems" by (intro split_on_line) simp
  also have "\<dots> = x # ((y # ys) @ [tail])"
    using "3.hyps" "3.prems" by simp
  finally show ?case by simp
qed

lemma anchor_href_anchor:
  \<open>CHR 0x22 \<notin> set u \<Longrightarrow>
   anchor_href (''  <a href="'' @ u @ ''" target="_blank" rel="noopener noreferrer">'' @ u @ ''</a>'') = u\<close>
  by (auto simp: anchor_href_def takeWhile_tail)

lemma export_anchor_line:
  \<open>export_anchor link
     = ''  <a href="'' @ finalUrl link @ ''" target="_blank" rel="noopener noreferrer">''
         @ finalUrl link @ ''</a>''\<close>
  by (simp add: export_anchor_def)

lemma listed_hrefs_export:
  assumes "\<forall>link \<in> set ls. CHR 0x0A \<notin> set (finalUrl link) \<and> CHR 0x22 \<notin> set (finalUrl link)"
  shows \<open>listed_hrefs (''<!-- Cleaned Links from ClearOut.bio -->'' @ [CHR 0x0A]
               @ ''<div class="bio-links">'' @ [CHR 0x0A]
               @ join [CHR 0x0A] (map export_anchor ls) @ [CHR 0x0A]
               @ ''</div>'') = map finalUrl ls\<close>
proof -
  let ?nl = "CHR 0x0A"
  let ?as = "map export_anchor ls"
  have no_nl: "\<forall>a \<in> set ?as. ?nl \<notin> set a"
    using assms by (auto simp: export_anchor_def)
  have tail: "?nl \<notin> set ''</div>''" by simp
  have split: \<open>split_on ?nl (''<!-- Cleaned Links from ClearOut.bio -->'' @ [?nl]
               @ ''<div class="bio-links">'' @ [?nl]
               @ join [?nl] ?as @ [?nl] @ ''</div>'')
          = ''<!-- Cleaned Links from ClearOut.bio -->'' # ''<div class="bio-links">''
              # ((if ?as = [] then [[]] else ?as) @ [''</div>''])\<close>
  proof -
    have rest: "split_on ?nl (join [?nl] ?as @ ?nl # ''</div>'')
                  = (if ?as = [] then [[]] else ?as) @ [''</div>'']"
      by (rule split_on_join [OF no_nl tail])
    have d: \<open>split_on ?nl (''<div class="bio-links">'' @ ?nl # (join [?nl] ?as @ ?nl # ''</div>''))
               = ''<div class="bio-links">'' # split_on ?nl (join [?nl] ?as @ ?nl # ''</div>'')\<close>
      by (rule split_on_line) simp
    have h: \<open>split_on ?nl (''<!-- Cleaned Links from ClearOut.bio -->''
                 @ ?nl # (''<div class="bio-links">'' @ ?nl # (join [?nl] ?as @ ?nl # ''</div>'')))
               = ''<!-- Cleaned Links from ClearOut.bio -->''
                   # split_on ?nl (''<div class="bio-links">'' @ ?nl # (join [?nl] ?as @ ?nl # ''</div>''))\<close>
      by (rule split_on_line) simp
    from h d rest show ?thesis by simp
  qed
  have keep: \<open>filter (prefix ''  <a href="'') ?as = ?as\<close>
    by (auto simp: export_anchor_def filter_id_conv)
  have href: "anchor_href (export_anchor link) = finalUrl link" if "link \<in> set ls" for link
  proof -
    from assms that have "CHR 0x22 \<notin> set (finalUrl link)" by blast
    then show ?thesis unfolding export_anchor_line by (rule anchor_href_anchor)
  qed
  have hrefs: "map anchor_href ?as = map finalUrl ls"
    using href by (simp add: comp_def)
  show ?thesis
    unfolding listed_hrefs_def split using keep hrefs by (cases "ls = []") simp_all
qed


text \<open>
  C2. The export writes, between its two header lines and its closing line, one anchor
  for every link of the result that is working, in the order of the result, the working
  redirects included; each anchor has the link's \<open>finalUrl\<close> as target and as text. When
  no such \<open>finalUrl\<close> holds a line break or a double quote, the targets read back from
  the anchor lines of the snippet are exactly these addresses in this order. For a
  result of the handler the anchors are \<open>workingLinks + redirects\<close> many.
\<close>

theorem exportAsHTML_lists_working:
  \<open>exportAsHTML None = None \<and>
   exportAsHTML (Some r)
     = Some (''<!-- Cleaned Links from ClearOut.bio -->'' @ [CHR 0x0A]
               @ ''<div class="bio-links">'' @ [CHR 0x0A]
               @ join [CHR 0x0A]
                   (map (\<lambda>u. ''  <a href="'' @ u
                                @ ''" target="_blank" rel="noopener noreferrer">'' @ u @ ''</a>'')
                        (map finalUrl (filter (\<lambda>link. isWorking link) (links r))))
               @ [CHR 0x0A] @ ''</div>'') \<and>
   ((\<forall>link \<in> set (links r). isWorking link \<longrightarrow>
        CHR 0x0A \<notin> set (finalUrl link) \<and> CHR 0x22 \<notin> set (finalUrl link)) \<longrightarrow>
    (\<exists>text. exportAsHTML (Some r) = Some text \<and>
            listed_hrefs text = map finalUrl (filter (\<lambda>link. isWorking link) (links r)))) \<and>
   (\<forall>link \<in> set (links r). isWorking link \<and> isRedirect link \<longrightarrow>
      finalUrl link \<in> set (map finalUrl (filter (\<lambda>link. isWorking link) (links r)))) \<and>
   (\<forall>w body. POST w body = Inr (ScanJson r) \<longrightarrow>
      length (filter (\<lambda>link. isWorking link) (links r)) = workingLinks r + redirects r)\<close>
proof -
  let ?ws = "filter (\<lambda>link. isWorking link) (links r)"
  have none: "exportAsHTML None = None"
    by (simp add: exportAsHTML_def)
  have anchors: \<open>map export_anchor ?ws
                  = map (\<lambda>u. ''  <a href="'' @ u
                                @ ''" target="_blank" rel="noopener noreferrer">'' @ u @ ''</a>'')
                        (map finalUrl ?ws)\<close>
    by (simp add: export_anchor_def comp_def)
  have out: \<open>exportAsHTML (Some r)
     = Some (''<!-- Cleaned Links from ClearOut.bio -->'' @ [CHR 0x0A]
               @ ''<div class="bio-links">'' @ [CHR 0x0A]
               @ join [CHR 0x0A]
                   (map (\<lambda>u. ''  <a href="'' @ u
                                @ ''" target="_blank" rel="noopener noreferrer">'' @ u @ ''</a>'')
                        (map finalUrl ?ws))
               @ [CHR 0x0A] @ ''</div>'')\<close>
    unfolding anchors [symmetric] by (simp add: exportAsHTML_def export_selection_def)
  have readback: "\<exists>text. exportAsHTML (Some r) = Some text \<and> listed_hrefs text = map finalUrl ?ws"
    if safe: "\<forall>link \<in> set (links r). isWorking link \<longrightarrow>
                CHR 0x0A \<notin> set (finalUrl link) \<and> CHR 0x22 \<notin> set (finalUrl link)"
  proof -
    from safe have "\<forall>link \<in> set ?ws. CHR 0x0A \<notin> set (finalUrl link) \<and> CHR 0x22 \<notin> set (finalUrl link)"
      by simp
    from listed_hrefs_export [OF this] show ?thesis
      by (simp add: exportAsHTML_def export_selection_def)
  qed
  have redirect: "\<forall>link \<in> set (links r). isWorking link \<and> isRedirect link \<longrightarrow>
                    finalUrl link \<in> set (map finalUrl ?ws)"
    by auto
  have count: "length ?ws = workingLinks r + redirects r"
    if "POST w body = Inr (ScanJson r)" for w body
    using POST_scan_counts [OF that] export_selection_buckets [of "links r"] by simp
  from none out readback redirect count show ?thesis by (intro conjI allI impI) blast+
qed

theorem exportAsHTML_lists_working_witness:
  \<open>exportAsHTML (Some bio_scan)
     = Some (''<!-- Cleaned Links from ClearOut.bio -->'' @ [CHR 0x0A]
        @ ''<div class="bio-links">'' @ [CHR 0x0A]
        @ ''  <a href="https://a.com/ok" target="_blank" rel="noopener noreferrer">https://a.com/ok</a>'' @ [CHR 0x0A]
        @ ''  <a href="https://a.com/new" target="_blank" rel="noopener noreferrer">https://a.com/new</a>'' @ [CHR 0x0A]
        @ ''</div>'') \<and>
   listed_hrefs (''<!-- Cleaned Links from ClearOut.bio -->'' @ [CHR 0x0A]
        @ ''<div class="bio-links">'' @ [CHR 0x0A]
        @ ''  <a href="https://a.com/ok" target="_blank" rel="noopener noreferrer">https://a.com/ok</a>'' @ [CHR 0x0A]
        @ ''  <a href="https://a.com/new" target="_blank" rel="noopener noreferrer">https://a.com/new</a>'' @ [CHR 0x0A]
        @ ''</div>'') = [''https://a.com/ok'', ''https://a.com/new''] \<and>
   POST bio_platform (Inr (JsString ''https://bio.example/me'')) = Inr (ScanJson bio_scan) \<and>
   workingLinks bio_scan + redirects bio_scan = 2\<close>
proof -
  let ?ws = "filter (\<lambda>link. isWorking link) (links bio_scan)"
  note t = exportAsHTML_lists_working [of bio_scan]
  have safe: "\<forall>link \<in> set (links bio_scan). isWorking link \<longrightarrow>
                CHR 0x0A \<notin> set (finalUrl link) \<and> CHR 0x22 \<notin> set (finalUrl link)"
    by (simp add: bio_scan_def bio_links_def)
  have ws: "map finalUrl ?ws = [''https://a.com/ok'', ''https://a.com/new'']"
    by (simp add: bio_scan_def bio_links_def)
  from t have out: \<open>exportAsHTML (Some bio_scan)
     = Some (''<!-- Cleaned Links from ClearOut.bio -->'' @ [CHR 0x0A]
               @ ''<div class="bio-links">'' @ [CHR 0x0A]
               @ join [CHR 0x0A]
                   (map (\<lambda>u. ''  <a href="'' @ u
                                @ ''" target="_blank" rel="noopener noreferrer">'' @ u @ ''</a>'')
                        (map finalUrl ?ws))
               @ [CHR 0x0A] @ ''</div>'')\<close>
    by (elim conjE)
  from t have "(\<forall>link \<in> set (links bio_scan). isWorking link \<longrightarrow>
                  CHR 0x0A \<notin> set (finalUrl link) \<and> CHR 0x22 \<notin> set (finalUrl link)) \<longrightarrow>
                (\<exists>text'. exportAsHTML (Some bio_scan) = Some text' \<and>
                         listed_hrefs text' = map finalUrl ?ws)"
    by (elim conjE)
  from this [rule_format, OF safe [rule_format]]
  obtain text' where e: "exportAsHTML (Some bio_scan) = Some text'"
    and l: "listed_hrefs text' = map finalUrl ?ws"
    by blast
  from t have "\<forall>w body. POST w body = Inr (ScanJson bio_scan) \<longrightarrow>
                 length ?ws = workingLinks bio_scan + redirects bio_scan"
    by (elim conjE)
  from this [rule_format, OF bio_POST]
  have n: "length ?ws = workingLinks bio_scan + redirects bio_scan" .
  have two: "length ?ws = 2" by (simp add: bio_scan_def bio_links_def)
  from out e l n two bio_POST show ?thesis
    unfolding ws by simp
qed

theorem exportAsHTML_redirect_counterexample:
  \<open>exportAsHTML (Some bio_scan)
     = Some (''<!-- Cleaned Links from ClearOut.bio -->'' @ [CHR 0x0A]
        @ ''<div class="bio-links">'' @ [CHR 0x0A]
        @ ''  <a href="https://a.com/ok" target="_blank" rel="noopener noreferrer">https://a.com/ok</a>'' @ [CHR 0x0A]
        @ ''  <a href="https://a.com/new" target="_blank" rel="noopener noreferrer">https://a.com/new</a>'' @ [CHR 0x0A]
        @ ''</div>'') \<and>
   map finalUrl (export_selection bio_scan) = [''https://a.com/ok'', ''https://a.com/new''] \<and>
   map finalUrl (filter (\<lambda>link. isWorking link \<and> \<not> isRedirect link) (links bio_scan))
     = [''https://a.com/ok'']\<close>
  by (simp add: exportAsHTML_def export_selection_def export_anchor_def bio_scan_def bio_links_def)

end
